theory Spec2Isabelle
  imports Main "HOL-Library.AList"
begin

section \<open>Python values\<close>

text \<open>
  A Python \<open>str\<close> is a sequence of Unicode code points, and \<open>len\<close>, \<open>strip\<close> and \<open>re\<close>
  work on code points. A string is therefore a list of code points (natural numbers);
  \<open>py\<close> turns an ASCII literal into one.
\<close>

type_synonym pystr = "nat list"

definition py :: "string \<Rightarrow> pystr" where
  "py s = map of_char s"

text \<open>
  The values that \<open>hello_entirius\<close>, \<open>validate_input\<close> and \<open>process_data\<close> inspect with
  \<open>isinstance\<close>. A \<open>dict\<close> is an association list in insertion order.
\<close>

datatype pyval =
    PNone
  | PBool bool
  | PInt int
  | PStr pystr
  | PList "pyval list"
  | PTuple "pyval list"
  | PDict "(pyval \<times> pyval) list"

text \<open>\<open>type(v).__name__\<close> and \<open>str(type(v))\<close>.\<close>

fun type_name :: "pyval \<Rightarrow> string" where
  "type_name PNone = ''NoneType''"
| "type_name (PBool _) = ''bool''"
| "type_name (PInt _) = ''int''"
| "type_name (PStr _) = ''str''"
| "type_name (PList _) = ''list''"
| "type_name (PTuple _) = ''tuple''"
| "type_name (PDict _) = ''dict''"

definition type_repr :: "pyval \<Rightarrow> string" where
  "type_repr v = ''<class '' @ [CHR 0x27] @ type_name v @ [CHR 0x27] @ ''>''"

text \<open>
  \<open>isinstance(v, str)\<close>, \<open>isinstance(v, list)\<close>, \<open>isinstance(v, dict)\<close>, and the text of a
  value that is a \<open>str\<close>.
\<close>

fun is_str :: "pyval \<Rightarrow> bool" where
  "is_str (PStr _) = True"
| "is_str _ = False"

fun is_list :: "pyval \<Rightarrow> bool" where
  "is_list (PList _) = True"
| "is_list _ = False"

fun is_dict :: "pyval \<Rightarrow> bool" where
  "is_dict (PDict _) = True"
| "is_dict _ = False"

fun str_of :: "pyval \<Rightarrow> pystr" where
  "str_of (PStr s) = s"
| "str_of _ = []"

text \<open>
  \<open>TemplateError\<close> is the only exception class of the module; its instances differ by
  message. \<open>Unmodelled_pattern\<close> stands for an \<open>allowed_chars\<close> that is not a single
  bracketed set of literals and ranges: there Python either raises \<open>re.error\<close> or matches
  some other regular expression, and this development covers neither.
\<close>

datatype error = TemplateError string | Unmodelled_pattern

text \<open>
  \<open>d[k] = v\<close> on a dict: the value of a key that is present is replaced where it stands, a new
  key is added at the end. \<open>r[k]\<close> on a value that is a dict, for a text key \<open>k\<close>.
\<close>

definition dict_set :: "(pyval \<times> pyval) list \<Rightarrow> pyval \<Rightarrow> pyval \<Rightarrow> (pyval \<times> pyval) list" where
  "dict_set d k v = AList.update k v d"

definition getitem :: "pyval \<Rightarrow> string \<Rightarrow> pyval option" where
  "getitem r k = (case r of PDict d \<Rightarrow> map_of d (PStr (py k)) | _ \<Rightarrow> None)"

section \<open>\<open>str.strip\<close>\<close>

text \<open>The code points for which \<open>str.isspace\<close> holds; \<open>strip()\<close> removes them at both ends.\<close>

definition isspace :: "nat \<Rightarrow> bool" where
  "isspace c \<longleftrightarrow>
     (0x09 \<le> c \<and> c \<le> 0x0D) \<or> (0x1C \<le> c \<and> c \<le> 0x20) \<or> c = 0x85 \<or> c = 0xA0 \<or>
     c = 0x1680 \<or> (0x2000 \<le> c \<and> c \<le> 0x200A) \<or> c = 0x2028 \<or> c = 0x2029 \<or>
     c = 0x202F \<or> c = 0x205F \<or> c = 0x3000"

definition strip :: "pystr \<Rightarrow> pystr" where
  "strip s = rev (dropWhile isspace (rev (dropWhile isspace s)))"

section \<open>The regular expression \<open>^\<close>\<open>allowed_chars\<close>\<open>+$\<close>\<close>

text \<open>
  \<open>allowed_chars\<close> is parsed as \<open>re\<close> parses a bracketed set: \<open>[\<close>, an optional \<open>^\<close>
  (negation), then items up to the closing \<open>]\<close>. An item is one character or a range
  \<open>a-z\<close>; \<open>]\<close> is a literal when it is the first item; \<open>-\<close> is a literal right before the
  closing \<open>]\<close>. A backslash escape, a range whose upper end is below its lower end, a missing
  \<open>]\<close> and anything after the \<open>]\<close> are outside the fragment (\<open>None\<close>).
  Code points: \<open>[\<close> 91, backslash 92, \<open>]\<close> 93, \<open>^\<close> 94, \<open>-\<close> 45, newline 10.
\<close>

datatype set_item = Literal nat | Range nat nat

datatype charset = Charset (negate: bool) (items: "set_item list")

fun parse_set :: "set_item list \<Rightarrow> pystr \<Rightarrow> set_item list option" where
  "parse_set acc [] = None"
| "parse_set acc (this # rest) =
     (if this = 93 \<and> acc \<noteq> [] then (if rest = [] then Some acc else None)
      else if this = 92 then None
      else (case rest of
              m # that # rest' \<Rightarrow>
                if m = 45 then
                  (if that = 93 then
                     (if rest' = [] then Some (acc @ [Literal this, Literal 45]) else None)
                   else if that = 92 then None
                   else if that < this then None
                   else parse_set (acc @ [Range this that]) rest')
                else parse_set (acc @ [Literal this]) rest
            | [m] \<Rightarrow> if m = 45 then None else parse_set (acc @ [Literal this]) rest
            | [] \<Rightarrow> None))"

definition parse_class :: "pystr \<Rightarrow> charset option" where
  "parse_class p =
     (case p of
        [] \<Rightarrow> None
      | c # r \<Rightarrow>
          if c \<noteq> 91 then None
          else (case r of
                  [] \<Rightarrow> None
                | d # r' \<Rightarrow>
                    if d = 94 then map_option (Charset True) (parse_set [] r')
                    else map_option (Charset False) (parse_set [] r)))"

fun item_matches :: "set_item \<Rightarrow> nat \<Rightarrow> bool" where
  "item_matches (Literal a) c = (c = a)"
| "item_matches (Range lo hi) c = (lo \<le> c \<and> c \<le> hi)"

definition in_charset :: "charset \<Rightarrow> nat \<Rightarrow> bool" where
  "in_charset cs c = (list_ex (\<lambda>i. item_matches i c) (items cs) \<noteq> negate cs)"

text \<open>
  Without \<open>re.MULTILINE\<close>, \<open>$\<close> matches at the end of the string and also just before a
  newline that is the last character of the string.
\<close>

fun at_end :: "pystr \<Rightarrow> bool" where
  "at_end [] = True"
| "at_end [c] = (c = 10)"
| "at_end (c # d # s) = False"

text \<open>
  After the first repetition of the set: further repetitions, tried first (\<open>+\<close> is greedy),
  then \<open>$\<close> at the position reached.
\<close>

fun match_more :: "charset \<Rightarrow> pystr \<Rightarrow> bool" where
  "match_more cs [] = at_end []"
| "match_more cs (c # s) = ((in_charset cs c \<and> match_more cs s) \<or> at_end (c # s))"

text \<open>\<open>re.match(f"^{allowed}+$", v)\<close> finds a match.\<close>

definition re_match :: "pystr \<Rightarrow> pystr \<Rightarrow> bool option" where
  "re_match allowed v =
     (case parse_class allowed of
        None \<Rightarrow> None
      | Some cs \<Rightarrow>
          Some (case v of [] \<Rightarrow> False | c # s \<Rightarrow> in_charset cs c \<and> match_more cs s))"

section \<open>\<open>TemplateConfig\<close>\<close>

record TemplateConfig =
  max_length :: int
  min_length :: int
  allowed_chars :: pystr
  strip_whitespace :: bool

definition post_init :: "TemplateConfig \<Rightarrow> error + TemplateConfig" where
  "post_init self =
     (if max_length self < min_length self
      then Inl (TemplateError ''max_length must be greater than or equal to min_length'')
      else Inr self)"

text \<open>
  The constructor the dataclass generates: each keyword argument is optional and has the
  default of its field; \<open>__post_init__\<close> runs on the new object.
\<close>

definition TemplateConfig_new ::
  "int option \<Rightarrow> int option \<Rightarrow> pystr option \<Rightarrow> bool option \<Rightarrow> error + TemplateConfig" where
  "TemplateConfig_new mx mn ac sw =
     post_init \<lparr>max_length = (case mx of None \<Rightarrow> 100 | Some n \<Rightarrow> n),
                min_length = (case mn of None \<Rightarrow> 1 | Some n \<Rightarrow> n),
                allowed_chars = (case ac of None \<Rightarrow> py ''[a-zA-Z0-9_-]'' | Some p \<Rightarrow> p),
                strip_whitespace = (case sw of None \<Rightarrow> True | Some b \<Rightarrow> b)\<rparr>"

text \<open>\<open>TemplateConfig()\<close>, which \<open>__post_init__\<close> accepts (lemma \<open>default_config_new\<close>).\<close>

definition default_config :: TemplateConfig where
  "default_config =
     \<lparr>max_length = 100, min_length = 1, allowed_chars = py ''[a-zA-Z0-9_-]'',
      strip_whitespace = True\<rparr>"

definition config_or_default :: "TemplateConfig option \<Rightarrow> TemplateConfig" where
  "config_or_default config = (case config of None \<Rightarrow> default_config | Some c \<Rightarrow> c)"

section \<open>\<open>hello_entirius\<close>\<close>

text \<open>The parameter defaults to \<open>None\<close>: a call without argument is \<open>hello_entirius PNone\<close>.\<close>

definition hello_entirius :: "pyval \<Rightarrow> error + pystr" where
  "hello_entirius name =
     (case (if name = PNone then PStr (py ''World'') else name) of
        PStr n \<Rightarrow> Inr (py ''Hello, '' @ n @ py ''! Welcome to Entirius.'')
      | _ \<Rightarrow> Inl (TemplateError ''Name must be a string''))"

section \<open>\<open>validate_input\<close>\<close>

definition validate_input :: "pyval \<Rightarrow> TemplateConfig option \<Rightarrow> error + bool" where
  "validate_input val config =
     (case val of
        PStr s \<Rightarrow>
          (let cfg = config_or_default config;
               v = (if strip_whitespace cfg then strip s else s)
           in if int (length v) < min_length cfg \<or> int (length v) > max_length cfg
              then Inr False
              else (case re_match (allowed_chars cfg) v of
                      None \<Rightarrow> Inl Unmodelled_pattern
                    | Some m \<Rightarrow> if \<not> m then Inr False else Inr True))
      | _ \<Rightarrow> Inl (TemplateError ''Value must be a string''))"

section \<open>\<open>process_data\<close>\<close>

text \<open>The loop over a list: the accumulators are \<open>processed_items\<close> and \<open>valid_items\<close>.\<close>

definition item_entry :: "pystr \<Rightarrow> bool \<Rightarrow> pyval" where
  "item_entry processed_item is_valid =
     PDict [(PStr (py ''value''), PStr processed_item),
            (PStr (py ''valid''), PBool is_valid),
            (PStr (py ''length''), PInt (int (length processed_item)))]"

fun process_items ::
  "TemplateConfig \<Rightarrow> pyval list \<Rightarrow> pyval list \<Rightarrow> int \<Rightarrow> error + (pyval list \<times> int)" where
  "process_items cfg [] processed_items valid_items = Inr (processed_items, valid_items)"
| "process_items cfg (item # rest) processed_items valid_items =
     (case item of
        PStr s \<Rightarrow>
          (let processed_item = (if strip_whitespace cfg then strip s else s)
           in case validate_input item (Some cfg) of
                Inl e \<Rightarrow> Inl e
              | Inr is_valid \<Rightarrow>
                  process_items cfg rest
                    (processed_items @ [item_entry processed_item is_valid])
                    (if is_valid then valid_items + 1 else valid_items))
      | _ \<Rightarrow> Inl (TemplateError (''List items must be strings, got '' @ type_repr item)))"

text \<open>The loop over \<open>data.items()\<close>: the accumulators are \<open>processed_dict\<close> and \<open>valid_keys\<close>.\<close>

definition key_entry :: "pyval \<Rightarrow> bool \<Rightarrow> pyval" where
  "key_entry v key_valid =
     PDict [(PStr (py ''original_value''), v),
            (PStr (py ''key_valid''), PBool key_valid),
            (PStr (py ''value_type''), PStr (py (type_name v)))]"

fun process_entries ::
  "TemplateConfig \<Rightarrow> (pyval \<times> pyval) list \<Rightarrow> (pyval \<times> pyval) list \<Rightarrow> int \<Rightarrow>
     error + ((pyval \<times> pyval) list \<times> int)" where
  "process_entries cfg [] processed_dict valid_keys = Inr (processed_dict, valid_keys)"
| "process_entries cfg ((key, v) # rest) processed_dict valid_keys =
     (case key of
        PStr k \<Rightarrow>
          (case validate_input key (Some cfg) of
             Inl e \<Rightarrow> Inl e
           | Inr key_valid \<Rightarrow>
               (let processed_key = (if strip_whitespace cfg then strip k else k)
                in process_entries cfg rest
                     (dict_set processed_dict (PStr processed_key) (key_entry v key_valid))
                     (if key_valid then valid_keys + 1 else valid_keys)))
      | _ \<Rightarrow> Inl (TemplateError ''Dictionary keys must be strings''))"

definition initial_result :: "pyval \<Rightarrow> TemplateConfig \<Rightarrow> (pyval \<times> pyval) list" where
  "initial_result data cfg =
     [(PStr (py ''input_type''), PStr (py (type_name data))),
      (PStr (py ''processed_at''), PStr (py ''timestamp_placeholder'')),
      (PStr (py ''config_used''),
         PDict [(PStr (py ''max_length''), PInt (max_length cfg)),
                (PStr (py ''min_length''), PInt (min_length cfg))])]"

definition process_data :: "pyval \<Rightarrow> TemplateConfig option \<Rightarrow> error + pyval" where
  "process_data data config =
     (let cfg = config_or_default config;
          result = initial_result data cfg
      in case data of
           PStr s \<Rightarrow>
             (let processed = (if strip_whitespace cfg then strip s else s);
                  r1 = dict_set result (PStr (py ''processed_data'')) (PStr processed)
              in case validate_input data (Some cfg) of
                   Inl e \<Rightarrow> Inl e
                 | Inr b \<Rightarrow>
                     (let r2 = dict_set r1 (PStr (py ''valid'')) (PBool b);
                          r3 = dict_set r2 (PStr (py ''length'')) (PInt (int (length processed)))
                      in Inr (PDict r3)))
         | PList xs \<Rightarrow>
             (case process_items cfg xs [] 0 of
                Inl e \<Rightarrow> Inl e
              | Inr (processed_items, valid_items) \<Rightarrow>
                  (let r1 = dict_set result (PStr (py ''processed_data'')) (PList processed_items);
                       r2 = dict_set r1 (PStr (py ''total_items'')) (PInt (int (length xs)));
                       r3 = dict_set r2 (PStr (py ''valid_items'')) (PInt valid_items);
                       r4 = dict_set r3 (PStr (py ''valid'')) (PBool (valid_items = int (length xs)))
                   in Inr (PDict r4)))
         | PDict kvs \<Rightarrow>
             (case process_entries cfg kvs [] 0 of
                Inl e \<Rightarrow> Inl e
              | Inr (processed_dict, valid_keys) \<Rightarrow>
                  (let r1 = dict_set result (PStr (py ''processed_data'')) (PDict processed_dict);
                       r2 = dict_set r1 (PStr (py ''total_keys'')) (PInt (int (length kvs)));
                       r3 = dict_set r2 (PStr (py ''valid_keys'')) (PInt valid_keys);
                       r4 = dict_set r3 (PStr (py ''valid'')) (PBool (valid_keys = int (length kvs)))
                   in Inr (PDict r4)))
         | _ \<Rightarrow> Inl (TemplateError (''Unsupported data type: '' @ type_repr data)))"

section \<open>Notions used in the statements\<close>

text \<open>The key under which the entry of an input key is stored: the key, stripped per config.\<close>

definition processed_key :: "TemplateConfig \<Rightarrow> pyval \<Rightarrow> pyval" where
  "processed_key cfg k = PStr (if strip_whitespace cfg then strip (str_of k) else str_of k)"

section \<open>Lemmas\<close>

lemma default_config_new: "TemplateConfig_new None None None None = Inr default_config"
  by (simp add: TemplateConfig_new_def post_init_def default_config_def)

lemma at_end_iff: "at_end s \<longleftrightarrow> s = [] \<or> s = [10]"
  by (cases s rule: at_end.cases) auto

lemma match_more_iff:
  "match_more cs s \<longleftrightarrow>
     list_all (in_charset cs) s \<or> (\<exists>t. s = t @ [10] \<and> list_all (in_charset cs) t)"
proof (induction s)
  case Nil
  show ?case by simp
next
  case (Cons c s)
  have "(\<exists>t. c # s = t @ [10] \<and> list_all (in_charset cs) t) \<longleftrightarrow>
        (s = [] \<and> c = 10) \<or> (in_charset cs c \<and> (\<exists>t. s = t @ [10] \<and> list_all (in_charset cs) t))"
    (is "?L \<longleftrightarrow> ?R")
  proof
    assume ?L
    then obtain t where t: "c # s = t @ [10]" "list_all (in_charset cs) t" by blast
    show ?R
    proof (cases t)
      case Nil
      with t show ?thesis by simp
    next
      case (Cons a t')
      with t show ?thesis by auto
    qed
  next
    assume ?R
    then show ?L
    proof
      assume "s = [] \<and> c = 10"
      then have "c # s = [] @ [10] \<and> list_all (in_charset cs) []" by simp
      then show ?L by blast
    next
      assume "in_charset cs c \<and> (\<exists>t. s = t @ [10] \<and> list_all (in_charset cs) t)"
      then obtain t where "in_charset cs c" "s = t @ [10]" "list_all (in_charset cs) t" by blast
      then have "c # s = (c # t) @ [10] \<and> list_all (in_charset cs) (c # t)" by simp
      then show ?L by blast
    qed
  qed
  with Cons.IH show ?case by (auto simp: at_end_iff)
qed

lemma re_match_Some:
  assumes "parse_class p = Some cs"
  shows "re_match p v =
           Some (v \<noteq> [] \<and> (list_all (in_charset cs) v \<or>
                   (\<exists>t. t \<noteq> [] \<and> v = t @ [10] \<and> list_all (in_charset cs) t)))"
proof (cases v)
  case Nil
  with assms show ?thesis by (simp add: re_match_def)
next
  case (Cons c s)
  have "(\<exists>t. t \<noteq> [] \<and> c # s = t @ [10] \<and> list_all (in_charset cs) t) \<longleftrightarrow>
        in_charset cs c \<and> (\<exists>t. s = t @ [10] \<and> list_all (in_charset cs) t)"
    (is "?L \<longleftrightarrow> ?R")
  proof
    assume ?L
    then obtain t where t: "t \<noteq> []" "c # s = t @ [10]" "list_all (in_charset cs) t" by blast
    then obtain a t' where "t = a # t'" by (cases t) auto
    with t show ?R by auto
  next
    assume ?R
    then obtain t where "in_charset cs c" "s = t @ [10]" "list_all (in_charset cs) t" by blast
    then have "c # t \<noteq> [] \<and> c # s = (c # t) @ [10] \<and> list_all (in_charset cs) (c # t)" by simp
    then show ?L by blast
  qed
  with Cons assms show ?thesis by (auto simp: re_match_def match_more_iff)
qed

lemma isspace_newline: "isspace 10"
  by (simp add: isspace_def)

lemma strip_last: "strip s \<noteq> [] \<Longrightarrow> \<not> isspace (last (strip s))"
proof -
  assume a: "strip s \<noteq> []"
  let ?t = "dropWhile isspace (rev (dropWhile isspace s))"
  from a have ne: "?t \<noteq> []" by (simp add: strip_def)
  then have "\<not> isspace (hd ?t)" by (rule hd_dropWhile)
  moreover have "last (strip s) = hd ?t" using ne by (simp add: strip_def last_rev)
  ultimately show ?thesis by simp
qed

lemma strip_no_trailing_newline: "strip s \<noteq> t @ [10]"
proof
  assume e: "strip s = t @ [10]"
  then have "strip s \<noteq> []" by simp
  then have "\<not> isspace (last (strip s))" by (rule strip_last)
  with e show False by (simp add: isspace_newline)
qed

lemma config_or_default_idem:
  "config_or_default (Some (config_or_default config)) = config_or_default config"
  by (simp add: config_or_default_def)

lemma validate_input_config:
  "validate_input x config = validate_input x (Some (config_or_default config))"
  by (cases x) (simp_all add: validate_input_def config_or_default_idem)

lemma validate_input_str:
  assumes "parse_class (allowed_chars (config_or_default config)) = Some cs"
  shows "validate_input (PStr s) config =
     Inr (let cfg = config_or_default config; v = (if strip_whitespace cfg then strip s else s)
          in min_length cfg \<le> int (length v) \<and> int (length v) \<le> max_length cfg \<and> v \<noteq> [] \<and>
             (list_all (in_charset cs) v \<or>
              (\<exists>t. t \<noteq> [] \<and> v = t @ [10] \<and> list_all (in_charset cs) t)))"
  using assms by (auto simp: validate_input_def Let_def re_match_Some)

lemmas validate_eval =
  validate_input_def config_or_default_def default_config_def strip_def isspace_def py_def
  re_match_def parse_class_def in_charset_def TemplateConfig_new_def post_init_def

lemma config_or_default_Some: "config_or_default (Some cfg) = cfg"
  by (simp add: config_or_default_def)

lemma validate_input_total:
  assumes "parse_class (allowed_chars cfg) = Some cs"
  shows "\<exists>b. validate_input (PStr s) (Some cfg) = Inr b"
  using assms by (simp add: validate_input_str config_or_default_Some)

lemma validate_input_True_bounds:
  assumes "validate_input (PStr s) (Some cfg) = Inr True"
  shows "min_length cfg \<le> int (length (if strip_whitespace cfg then strip s else s)) \<and>
         int (length (if strip_whitespace cfg then strip s else s)) \<le> max_length cfg"
  using assms
  by (auto simp: validate_input_def config_or_default_Some Let_def split: if_splits option.splits)

lemma is_str_iff: "is_str x \<longleftrightarrow> (\<exists>s. x = PStr s)"
  by (cases x) simp_all

lemma process_items_all_text:
  assumes "parse_class (allowed_chars cfg) = Some cs" and "list_all is_str xs"
  shows "process_items cfg xs acc n =
     Inr (acc @ map (\<lambda>x. item_entry (if strip_whitespace cfg then strip (str_of x) else str_of x)
                           (validate_input x (Some cfg) = Inr True)) xs,
          n + int (length (filter (\<lambda>x. validate_input x (Some cfg) = Inr True) xs)))"
  using assms(2)
proof (induction xs arbitrary: acc n)
  case Nil
  show ?case by simp
next
  case (Cons x xs)
  from Cons.prems obtain s where x: "x = PStr s" by (auto simp: is_str_iff)
  from validate_input_total [OF assms(1)] obtain b
    where b: "validate_input (PStr s) (Some cfg) = Inr b" by blast
  from Cons.prems have "list_all is_str xs" by simp
  note IH = Cons.IH [OF this]
  show ?case
    by (cases b) (simp_all add: x b IH)
qed

lemma process_items_non_text:
  assumes "parse_class (allowed_chars cfg) = Some cs" and "find (\<lambda>x. \<not> is_str x) xs = Some y"
  shows "process_items cfg xs acc n =
     Inl (TemplateError (''List items must be strings, got '' @ type_repr y))"
  using assms(2)
proof (induction xs arbitrary: acc n)
  case Nil
  then show ?case by simp
next
  case (Cons x xs)
  show ?case
  proof (cases "is_str x")
    case True
    then obtain s where x: "x = PStr s" by (auto simp: is_str_iff)
    from validate_input_total [OF assms(1)] obtain b
      where b: "validate_input (PStr s) (Some cfg) = Inr b" by blast
    from Cons.prems True have "find (\<lambda>x. \<not> is_str x) xs = Some y" by simp
    note IH = Cons.IH [OF this]
    show ?thesis by (simp add: x b IH)
  next
    case False
    with Cons.prems have "y = x" by simp
    with False show ?thesis by (cases x) simp_all
  qed
qed

lemma process_items_entries:
  assumes "process_items cfg xs acc n = Inr (es, m)"
  shows "\<exists>ys. es = acc @ ys \<and>
           (\<forall>e \<in> set ys. \<exists>s b. e = item_entry (if strip_whitespace cfg then strip s else s) b \<and>
               validate_input (PStr s) (Some cfg) = Inr b)"
  using assms
proof (induction xs arbitrary: acc n)
  case Nil
  then show ?case by simp
next
  case (Cons x xs)
  from Cons.prems obtain s where x: "x = PStr s" by (cases x) simp_all
  from Cons.prems x obtain b where b: "validate_input (PStr s) (Some cfg) = Inr b"
    by (cases "validate_input (PStr s) (Some cfg)") simp_all
  let ?e = "item_entry (if strip_whitespace cfg then strip s else s) b"
  from Cons.prems x b
  have "process_items cfg xs (acc @ [?e]) (if b then n + 1 else n) = Inr (es, m)"
    by simp
  from Cons.IH [OF this] obtain ys where ys: "es = (acc @ [?e]) @ ys"
    "\<forall>e \<in> set ys. \<exists>s b. e = item_entry (if strip_whitespace cfg then strip s else s) b \<and>
               validate_input (PStr s) (Some cfg) = Inr b" by blast
  have "es = acc @ (?e # ys)" using ys(1) by simp
  moreover have "\<forall>e \<in> set (?e # ys). \<exists>s b. e = item_entry (if strip_whitespace cfg then strip s else s) b \<and>
               validate_input (PStr s) (Some cfg) = Inr b"
    using ys(2) b by auto
  ultimately show ?case by blast
qed

lemma getitem_item_entry:
  "getitem (item_entry p b) ''value'' = Some (PStr p)"
  "getitem (item_entry p b) ''valid'' = Some (PBool b)"
  "getitem (item_entry p b) ''length'' = Some (PInt (int (length p)))"
  by (simp_all add: getitem_def item_entry_def py_def)

lemma getitem_dict_set:
  "getitem (PDict (dict_set d (PStr (py k)) v)) k' = (if py k' = py k then Some v else getitem (PDict d) k')"
  by (simp add: getitem_def dict_set_def update_conv')

lemma py_key_neq:
  "py ''processed_data'' \<noteq> py ''total_items''" "py ''processed_data'' \<noteq> py ''valid_items''"
  "py ''processed_data'' \<noteq> py ''valid''" "py ''total_items'' \<noteq> py ''valid_items''"
  "py ''total_items'' \<noteq> py ''valid''" "py ''valid_items'' \<noteq> py ''valid''"
  "py ''processed_data'' \<noteq> py ''total_keys''" "py ''processed_data'' \<noteq> py ''valid_keys''"
  "py ''total_keys'' \<noteq> py ''valid_keys''"
  "py ''total_keys'' \<noteq> py ''valid''" "py ''valid_keys'' \<noteq> py ''valid''"
  by (simp_all add: py_def)

lemma process_data_list_result:
  assumes "process_items (config_or_default config) xs [] 0 = Inr (es, m)"
  shows "\<exists>r. process_data (PList xs) config = Inr r \<and>
     getitem r ''total_items'' = Some (PInt (int (length xs))) \<and>
     getitem r ''valid_items'' = Some (PInt m) \<and>
     getitem r ''valid'' = Some (PBool (m = int (length xs))) \<and>
     getitem r ''processed_data'' = Some (PList es)"
  using assms py_key_neq
  by (simp add: process_data_def Let_def getitem_dict_set)

lemma process_data_list_inv:
  assumes "process_data (PList xs) config = Inr r"
  shows "\<exists>es m. process_items (config_or_default config) xs [] 0 = Inr (es, m)"
  using assms
  by (cases "process_items (config_or_default config) xs [] 0")
     (auto simp: process_data_def Let_def)

lemma process_entries_all_text:
  assumes "parse_class (allowed_chars cfg) = Some cs" and "list_all (\<lambda>kv. is_str (fst kv)) kvs"
  shows "process_entries cfg kvs pd n =
     Inr (foldl (\<lambda>d kv. dict_set d (processed_key cfg (fst kv))
                   (key_entry (snd kv) (validate_input (fst kv) (Some cfg) = Inr True))) pd kvs,
          n + int (length (filter (\<lambda>kv. validate_input (fst kv) (Some cfg) = Inr True) kvs)))"
  using assms(2)
proof (induction kvs arbitrary: pd n)
  case Nil
  show ?case by simp
next
  case (Cons kv kvs)
  obtain k v where kv: "kv = (k, v)" by (cases kv)
  from Cons.prems kv obtain s where k: "k = PStr s" by (auto simp: is_str_iff)
  from validate_input_total [OF assms(1)] obtain b
    where b: "validate_input (PStr s) (Some cfg) = Inr b" by blast
  from Cons.prems have "list_all (\<lambda>kv. is_str (fst kv)) kvs" by simp
  note IH = Cons.IH [OF this]
  show ?case
    by (cases b) (simp_all add: kv k b IH processed_key_def)
qed

lemma process_entries_non_text:
  assumes "parse_class (allowed_chars cfg) = Some cs" and "\<not> list_all (\<lambda>kv. is_str (fst kv)) kvs"
  shows "process_entries cfg kvs pd n = Inl (TemplateError ''Dictionary keys must be strings'')"
  using assms(2)
proof (induction kvs arbitrary: pd n)
  case Nil
  then show ?case by simp
next
  case (Cons kv kvs)
  obtain k v where kv: "kv = (k, v)" by (cases kv)
  show ?case
  proof (cases "is_str k")
    case True
    then obtain s where k: "k = PStr s" by (auto simp: is_str_iff)
    from validate_input_total [OF assms(1)] obtain b
      where b: "validate_input (PStr s) (Some cfg) = Inr b" by blast
    from Cons.prems True kv have "\<not> list_all (\<lambda>kv. is_str (fst kv)) kvs" by simp
    note IH = Cons.IH [OF this]
    show ?thesis by (simp add: kv k b IH)
  next
    case False
    then show ?thesis by (cases k) (simp_all add: kv)
  qed
qed

lemma map_of_foldl_dict_set:
  "map_of (foldl (\<lambda>d kv. dict_set d (f kv) (g kv)) pd kvs) =
   map_of (rev (map (\<lambda>kv. (f kv, g kv)) kvs) @ pd)"
proof (induction kvs arbitrary: pd)
  case Nil
  show ?case by simp
next
  case (Cons kv kvs)
  have "map_of (foldl (\<lambda>d kv. dict_set d (f kv) (g kv)) pd (kv # kvs)) =
        map_of (rev (map (\<lambda>kv. (f kv, g kv)) kvs) @ dict_set pd (f kv) (g kv))"
    by (simp add: Cons.IH)
  also have "\<dots> = map_of (rev (map (\<lambda>kv. (f kv, g kv)) (kv # kvs)) @ pd)"
    by (simp add: dict_set_def update_conv' map_of_append fun_eq_iff map_add_def
        split: option.splits)
  finally show ?case .
qed

lemma distinct_foldl_dict_set:
  "distinct (map fst pd) \<Longrightarrow>
   distinct (map fst (foldl (\<lambda>d kv. dict_set d (f kv) (g kv)) pd kvs))"
  by (induction kvs arbitrary: pd) (simp_all add: dict_set_def distinct_update)

lemma keys_foldl_dict_set:
  "fst ` set (foldl (\<lambda>d kv. dict_set d (f kv) (g kv)) [] kvs) = f ` set kvs"
proof -
  let ?pd = "foldl (\<lambda>d kv. dict_set d (f kv) (g kv)) [] kvs"
  have "fst ` set ?pd = dom (map_of ?pd)" by (simp add: dom_map_of_conv_image_fst)
  also have "\<dots> = dom (map_of (rev (map (\<lambda>kv. (f kv, g kv)) kvs)))"
    using map_of_foldl_dict_set [of f g "[]" kvs] by simp
  also have "\<dots> = f ` set kvs" by (simp add: dom_map_of_conv_image_fst image_image)
  finally show ?thesis .
qed

lemma map_of_rev_last:
  assumes "i < length l" and "\<forall>j. i < j \<and> j < length l \<longrightarrow> fst (l ! j) \<noteq> fst (l ! i)"
  shows "map_of (rev l) (fst (l ! i)) = Some (snd (l ! i))"
proof -
  have l: "l = take i l @ l ! i # drop (Suc i) l" using assms(1) by (rule id_take_nth_drop)
  have "fst (l ! i) \<notin> fst ` set (drop (Suc i) l)"
  proof
    assume "fst (l ! i) \<in> fst ` set (drop (Suc i) l)"
    then obtain p where p: "p \<in> set (drop (Suc i) l)" "fst p = fst (l ! i)" by auto
    then obtain m where m: "m < length (drop (Suc i) l)" "drop (Suc i) l ! m = p"
      by (auto simp: in_set_conv_nth)
    then have "Suc i + m < length l" "l ! (Suc i + m) = p" by auto
    with assms(2) p(2) show False by auto
  qed
  then have none: "map_of (rev (drop (Suc i) l)) (fst (l ! i)) = None"
    by (simp add: map_of_eq_None_iff)
  have "rev l = rev (drop (Suc i) l) @ (l ! i) # rev (take i l)"
    by (subst l) simp
  then have "map_of (rev l) (fst (l ! i)) =
      map_of (rev (drop (Suc i) l) @ (l ! i) # rev (take i l)) (fst (l ! i))" by simp
  also have "\<dots> = Some (snd (l ! i))"
    using none by (simp add: map_of_append map_add_def)
  finally show ?thesis .
qed

lemma getitem_key_entry:
  "getitem (key_entry v b) ''original_value'' = Some v"
  "getitem (key_entry v b) ''key_valid'' = Some (PBool b)"
  "getitem (key_entry v b) ''value_type'' = Some (PStr (py (type_name v)))"
  by (simp_all add: getitem_def key_entry_def py_def)

lemma process_data_dict_result:
  assumes "process_entries (config_or_default config) kvs [] 0 = Inr (pd, m)"
  shows "\<exists>r. process_data (PDict kvs) config = Inr r \<and>
     getitem r ''total_keys'' = Some (PInt (int (length kvs))) \<and>
     getitem r ''valid_keys'' = Some (PInt m) \<and>
     getitem r ''valid'' = Some (PBool (m = int (length kvs))) \<and>
     getitem r ''processed_data'' = Some (PDict pd)"
  using assms py_key_neq
  by (simp add: process_data_def Let_def getitem_dict_set)

lemma process_data_dict_all_text:
  assumes "list_all (\<lambda>kv. is_str (fst kv)) kvs"
    and "parse_class (allowed_chars (config_or_default config)) \<noteq> None"
  shows "\<exists>r. process_data (PDict kvs) config = Inr r \<and>
     getitem r ''total_keys'' = Some (PInt (int (length kvs))) \<and>
     getitem r ''valid_keys'' =
       Some (PInt (int (length (filter (\<lambda>kv. validate_input (fst kv) config = Inr True) kvs)))) \<and>
     getitem r ''valid'' =
       Some (PBool (length (filter (\<lambda>kv. validate_input (fst kv) config = Inr True) kvs) = length kvs)) \<and>
     getitem r ''processed_data'' =
       Some (PDict (foldl (\<lambda>d kv. dict_set d (processed_key (config_or_default config) (fst kv))
                      (key_entry (snd kv) (validate_input (fst kv) config = Inr True))) [] kvs))"
proof -
  let ?cfg = "config_or_default config"
  from assms(2) obtain cs where cs: "parse_class (allowed_chars ?cfg) = Some cs" by blast
  have ok: "validate_input x (Some ?cfg) = validate_input x config" for x
    by (rule validate_input_config [symmetric])
  from process_entries_all_text [OF cs assms(1), of "[]" 0]
  have "process_entries ?cfg kvs [] 0 =
     Inr (foldl (\<lambda>d kv. dict_set d (processed_key ?cfg (fst kv))
                   (key_entry (snd kv) (validate_input (fst kv) config = Inr True))) [] kvs,
          int (length (filter (\<lambda>kv. validate_input (fst kv) config = Inr True) kvs)))"
    by (simp add: ok)
  from process_data_dict_result [OF this] show ?thesis by simp
qed

lemma foldl_dict_set_mem:
  assumes "(pk, e) \<in> set (foldl (\<lambda>d kv. dict_set d (f kv) (g kv)) [] kvs)"
  shows "\<exists>kv \<in> set kvs. pk = f kv \<and> e = g kv"
proof -
  let ?pd = "foldl (\<lambda>d kv. dict_set d (f kv) (g kv)) [] kvs"
  have "distinct (map fst ?pd)" by (rule distinct_foldl_dict_set) simp
  with assms have "map_of ?pd pk = Some e" by simp
  then have "map_of (rev (map (\<lambda>kv. (f kv, g kv)) kvs)) pk = Some e"
    using map_of_foldl_dict_set [of f g "[]" kvs] by simp
  then have "(pk, e) \<in> set (rev (map (\<lambda>kv. (f kv, g kv)) kvs))" by (rule map_of_SomeD)
  then show ?thesis by auto
qed

lemma foldl_dict_set_last:
  assumes "i < length kvs" and "\<forall>j. i < j \<and> j < length kvs \<longrightarrow> f (kvs ! j) \<noteq> f (kvs ! i)"
  shows "(f (kvs ! i), g (kvs ! i)) \<in> set (foldl (\<lambda>d kv. dict_set d (f kv) (g kv)) [] kvs)"
proof -
  let ?l = "map (\<lambda>kv. (f kv, g kv)) kvs"
  have "map_of (rev ?l) (fst (?l ! i)) = Some (snd (?l ! i))"
    using assms by (intro map_of_rev_last) auto
  then have "map_of (rev ?l) (f (kvs ! i)) = Some (g (kvs ! i))" using assms(1) by simp
  then have "map_of (foldl (\<lambda>d kv. dict_set d (f kv) (g kv)) [] kvs) (f (kvs ! i)) = Some (g (kvs ! i))"
    using map_of_foldl_dict_set [of f g "[]" kvs] by simp
  then show ?thesis by (rule map_of_SomeD)
qed

lemma foldl_dict_set_shorter:
  assumes "i < length kvs" "j < length kvs" "fst (kvs ! i) \<noteq> fst (kvs ! j)"
    and "h (fst (kvs ! i)) = h (fst (kvs ! j))"
  shows "length (foldl (\<lambda>d kv. dict_set d (h (fst kv)) (g kv)) [] kvs) < length kvs"
proof -
  let ?pd = "foldl (\<lambda>d kv. dict_set d (h (fst kv)) (g kv)) [] kvs"
  let ?K = "fst ` set kvs"
  have "distinct (map fst ?pd)" by (rule distinct_foldl_dict_set) simp
  then have "length ?pd = card (fst ` set ?pd)"
    using distinct_card [of "map fst ?pd"] by simp
  also have "fst ` set ?pd = h ` ?K"
    using keys_foldl_dict_set [of "\<lambda>kv. h (fst kv)" g kvs] by (simp add: image_image)
  finally have len: "length ?pd = card (h ` ?K)" .
  have "\<not> inj_on h ?K"
  proof
    assume "inj_on h ?K"
    moreover have "fst (kvs ! i) \<in> ?K" "fst (kvs ! j) \<in> ?K" using assms(1,2) by auto
    ultimately have "fst (kvs ! i) = fst (kvs ! j)" using assms(4) by (auto dest: inj_onD)
    with assms(3) show False by simp
  qed
  then have "card (h ` ?K) \<noteq> card ?K" using eq_card_imp_inj_on [of ?K h] by auto
  moreover have "card (h ` ?K) \<le> card ?K" by (simp add: card_image_le)
  ultimately have "card (h ` ?K) < card ?K" by simp
  also have "card ?K \<le> card (set kvs)" by (simp add: card_image_le)
  also have "\<dots> \<le> length kvs" by (rule card_length)
  finally show ?thesis using len by simp
qed

section \<open>Claims\<close>

text \<open>
  C1. \<open>validate_input\<close> is meant to accept exactly the values within the length bounds whose
  characters all belong to the allowed set. With \<open>strip_whitespace=False\<close> the code accepts
  \<open>abc\<close> followed by a newline under the default set, although the newline is not in the
  set: \<open>$\<close> also matches before a final newline.
\<close>

theorem validate_input_trailing_newline:
  "TemplateConfig_new None None None (Some False) =
     Inr (default_config\<lparr>strip_whitespace := False\<rparr>) \<and>
   validate_input (PStr (py ''abc'' @ [10])) (Some (default_config\<lparr>strip_whitespace := False\<rparr>))
     = Inr True \<and>
   parse_class (allowed_chars (default_config\<lparr>strip_whitespace := False\<rparr>)) =
     Some (Charset False [Range 97 122, Range 65 90, Range 48 57, Literal 95, Literal 45]) \<and>
   \<not> in_charset (Charset False [Range 97 122, Range 65 90, Range 48 57, Literal 95, Literal 45]) 10"
  by (simp add: validate_eval)

text \<open>
  C2. For a list whose elements are all text, \<open>process_data\<close> returns a result whose
  \<open>total_items\<close> is the length of the list, whose \<open>valid_items\<close> is the number of elements
  that \<open>validate_input\<close> accepts, whose \<open>valid\<close> says whether the two are equal, and whose
  \<open>processed_data\<close> holds, for each element in order, the value (stripped per config), its
  validity and its length. For \<open>["a", "b", "bad value"]\<close> and the default configuration:
  \<open>total_items\<close> 3, \<open>valid_items\<close> 2, \<open>valid\<close> false.
\<close>

theorem process_data_list:
  "(list_all is_str xs \<and> parse_class (allowed_chars (config_or_default config)) \<noteq> None \<longrightarrow>
     (\<exists>r es. process_data (PList xs) config = Inr r \<and>
        getitem r ''total_items'' = Some (PInt (int (length xs))) \<and>
        getitem r ''valid_items'' =
          Some (PInt (int (length (filter (\<lambda>x. validate_input x config = Inr True) xs)))) \<and>
        getitem r ''valid'' =
          Some (PBool (length (filter (\<lambda>x. validate_input x config = Inr True) xs) = length xs)) \<and>
        getitem r ''processed_data'' = Some (PList es) \<and> length es = length xs \<and>
        (\<forall>i < length xs. \<exists>s. xs ! i = PStr s \<and>
           getitem (es ! i) ''value'' =
             Some (PStr (if strip_whitespace (config_or_default config) then strip s else s)) \<and>
           getitem (es ! i) ''valid'' = Some (PBool (validate_input (PStr s) config = Inr True)) \<and>
           getitem (es ! i) ''length'' =
             Some (PInt (int (length
               (if strip_whitespace (config_or_default config) then strip s else s))))))) \<and>
   (\<exists>r. process_data (PList [PStr (py ''a''), PStr (py ''b''), PStr (py ''bad value'')]) None = Inr r \<and>
        getitem r ''total_items'' = Some (PInt 3) \<and>
        getitem r ''valid_items'' = Some (PInt 2) \<and>
        getitem r ''valid'' = Some (PBool False))"
proof (intro conjI impI)
  let ?cfg = "config_or_default config"
  let ?ok = "\<lambda>x. validate_input x config = Inr True"
  let ?p = "\<lambda>s. if strip_whitespace ?cfg then strip s else s"
  assume a: "list_all is_str xs \<and> parse_class (allowed_chars ?cfg) \<noteq> None"
  then obtain cs where cs: "parse_class (allowed_chars ?cfg) = Some cs" by blast
  from a have strs: "list_all is_str xs" by simp
  have ok: "validate_input x (Some ?cfg) = validate_input x config" for x
    by (rule validate_input_config [symmetric])
  let ?es = "map (\<lambda>x. item_entry (?p (str_of x)) (?ok x)) xs"
  have items: "process_items ?cfg xs [] 0 = Inr (?es, int (length (filter ?ok xs)))"
    using process_items_all_text [OF cs strs, of "[]" 0] by (simp add: ok)
  from process_data_list_result [OF items] obtain r where r:
    "process_data (PList xs) config = Inr r"
    "getitem r ''total_items'' = Some (PInt (int (length xs)))"
    "getitem r ''valid_items'' = Some (PInt (int (length (filter ?ok xs))))"
    "getitem r ''valid'' = Some (PBool (int (length (filter ?ok xs)) = int (length xs)))"
    "getitem r ''processed_data'' = Some (PList ?es)" by blast
  have each: "\<exists>s. xs ! i = PStr s \<and>
           getitem (?es ! i) ''value'' = Some (PStr (?p s)) \<and>
           getitem (?es ! i) ''valid'' = Some (PBool (validate_input (PStr s) config = Inr True)) \<and>
           getitem (?es ! i) ''length'' = Some (PInt (int (length (?p s))))"
    if i: "i < length xs" for i
  proof -
    from strs i have "is_str (xs ! i)" by (simp add: list_all_length)
    then obtain s where s: "xs ! i = PStr s" by (auto simp: is_str_iff)
    with i show ?thesis by (simp add: getitem_item_entry)
  qed
  have "length ?es = length xs" by simp
  with r each show "\<exists>r es. process_data (PList xs) config = Inr r \<and>
        getitem r ''total_items'' = Some (PInt (int (length xs))) \<and>
        getitem r ''valid_items'' = Some (PInt (int (length (filter ?ok xs)))) \<and>
        getitem r ''valid'' = Some (PBool (length (filter ?ok xs) = length xs)) \<and>
        getitem r ''processed_data'' = Some (PList es) \<and> length es = length xs \<and>
        (\<forall>i < length xs. \<exists>s. xs ! i = PStr s \<and>
           getitem (es ! i) ''value'' = Some (PStr (?p s)) \<and>
           getitem (es ! i) ''valid'' = Some (PBool (validate_input (PStr s) config = Inr True)) \<and>
           getitem (es ! i) ''length'' = Some (PInt (int (length (?p s)))))"
    by (intro exI [of _ r] exI [of _ ?es]) simp
next
  have v: "validate_input (PStr (py ''a'')) (Some default_config) = Inr True"
    "validate_input (PStr (py ''b'')) (Some default_config) = Inr True"
    "validate_input (PStr (py ''bad value'')) (Some default_config) = Inr False"
    by (simp_all add: validate_eval)
  have "\<exists>es. process_items (config_or_default None)
          [PStr (py ''a''), PStr (py ''b''), PStr (py ''bad value'')] [] 0 = Inr (es, 2)"
    by (simp add: config_or_default_def v)
  then obtain es where "process_items (config_or_default None)
          [PStr (py ''a''), PStr (py ''b''), PStr (py ''bad value'')] [] 0 = Inr (es, 2)" ..
  from process_data_list_result [OF this]
  show "\<exists>r. process_data (PList [PStr (py ''a''), PStr (py ''b''), PStr (py ''bad value'')]) None = Inr r \<and>
        getitem r ''total_items'' = Some (PInt 3) \<and>
        getitem r ''valid_items'' = Some (PInt 2) \<and>
        getitem r ''valid'' = Some (PBool False)"
    by auto
qed

theorem process_data_list_witness:
  "list_all is_str [PStr (py ''test1''), PStr (py '' test2 ''), PStr (py ''invalid@value'')] \<and>
   parse_class (allowed_chars (config_or_default None)) \<noteq> None \<and>
   (\<exists>r. process_data (PList [PStr (py ''test1''), PStr (py '' test2 ''), PStr (py ''invalid@value'')]) None = Inr r \<and>
      getitem r ''total_items'' = Some (PInt 3) \<and>
      getitem r ''valid_items'' = Some (PInt 2) \<and>
      getitem r ''valid'' = Some (PBool False) \<and>
      (\<exists>es. getitem r ''processed_data'' = Some (PList es) \<and> length es = 3 \<and>
         getitem (es ! 1) ''value'' = Some (PStr (py ''test2'')) \<and>
         getitem (es ! 1) ''valid'' = Some (PBool True) \<and>
         getitem (es ! 1) ''length'' = Some (PInt 5)))"
proof -
  let ?xs = "[PStr (py ''test1''), PStr (py '' test2 ''), PStr (py ''invalid@value'')]"
  have h: "list_all is_str ?xs \<and> parse_class (allowed_chars (config_or_default None)) \<noteq> None"
    by (simp add: validate_eval)
  have v: "validate_input (PStr (py ''test1'')) None = Inr True"
    "validate_input (PStr (py '' test2 '')) None = Inr True"
    "validate_input (PStr (py ''invalid@value'')) None = Inr False"
    by (simp_all add: validate_eval)
  have s: "strip_whitespace (config_or_default None)" "strip (py '' test2 '') = py ''test2''"
    "length (py ''test2'') = 5"
    by (simp_all add: validate_eval)
  from process_data_list [of ?xs None] h obtain r es where r:
    "process_data (PList ?xs) None = Inr r"
    "getitem r ''total_items'' = Some (PInt (int (length ?xs)))"
    "getitem r ''valid_items'' =
          Some (PInt (int (length (filter (\<lambda>x. validate_input x None = Inr True) ?xs))))"
    "getitem r ''valid'' =
          Some (PBool (length (filter (\<lambda>x. validate_input x None = Inr True) ?xs) = length ?xs))"
    "getitem r ''processed_data'' = Some (PList es)" "length es = length ?xs"
    "\<forall>i < length ?xs. \<exists>s. ?xs ! i = PStr s \<and>
           getitem (es ! i) ''value'' =
             Some (PStr (if strip_whitespace (config_or_default None) then strip s else s)) \<and>
           getitem (es ! i) ''valid'' = Some (PBool (validate_input (PStr s) None = Inr True)) \<and>
           getitem (es ! i) ''length'' =
             Some (PInt (int (length
               (if strip_whitespace (config_or_default None) then strip s else s))))"
    by blast
  from r(7) [rule_format, of 1] have "\<exists>s. ?xs ! 1 = PStr s \<and>
           getitem (es ! 1) ''value'' =
             Some (PStr (if strip_whitespace (config_or_default None) then strip s else s)) \<and>
           getitem (es ! 1) ''valid'' = Some (PBool (validate_input (PStr s) None = Inr True)) \<and>
           getitem (es ! 1) ''length'' =
             Some (PInt (int (length
               (if strip_whitespace (config_or_default None) then strip s else s))))"
    by simp
  then have e1: "getitem (es ! 1) ''value'' = Some (PStr (py ''test2''))"
    "getitem (es ! 1) ''valid'' = Some (PBool True)"
    "getitem (es ! 1) ''length'' = Some (PInt 5)"
    using v(2) s by auto
  from r(2,3,4) v have c: "getitem r ''total_items'' = Some (PInt 3)"
      "getitem r ''valid_items'' = Some (PInt 2)"
      "getitem r ''valid'' = Some (PBool False)"
    by simp_all
  from r(6) have "length es = 3" by simp
  with h r(1,5) c e1 show ?thesis by blast
qed

text \<open>
  C3. For a dict whose keys are all text, \<open>process_data\<close> returns a result whose
  \<open>total_keys\<close> is the number of entries, whose \<open>valid_keys\<close> is the number of keys that
  \<open>validate_input\<close> accepts, and whose \<open>valid\<close> says whether the two are equal. Every input
  key has an entry of \<open>processed_data\<close> under its processed key, and every entry of
  \<open>processed_data\<close> reports an input entry: its value unchanged, the validity of its key and
  the type name of its value.
\<close>

theorem process_data_dict:
  assumes "list_all (\<lambda>kv. is_str (fst kv)) kvs"
    and "parse_class (allowed_chars (config_or_default config)) \<noteq> None"
  shows "\<exists>r pd. process_data (PDict kvs) config = Inr r \<and>
     getitem r ''total_keys'' = Some (PInt (int (length kvs))) \<and>
     getitem r ''valid_keys'' =
       Some (PInt (int (length (filter (\<lambda>kv. validate_input (fst kv) config = Inr True) kvs)))) \<and>
     getitem r ''valid'' =
       Some (PBool (length (filter (\<lambda>kv. validate_input (fst kv) config = Inr True) kvs) = length kvs)) \<and>
     getitem r ''processed_data'' = Some (PDict pd) \<and>
     (\<forall>kv \<in> set kvs. \<exists>e. (processed_key (config_or_default config) (fst kv), e) \<in> set pd) \<and>
     (\<forall>(pk, e) \<in> set pd. \<exists>(k, v) \<in> set kvs.
         pk = processed_key (config_or_default config) k \<and>
         getitem e ''original_value'' = Some v \<and>
         getitem e ''key_valid'' = Some (PBool (validate_input k config = Inr True)) \<and>
         getitem e ''value_type'' = Some (PStr (py (type_name v))))"
proof -
  let ?f = "\<lambda>kv. processed_key (config_or_default config) (fst kv)"
  let ?g = "\<lambda>kv. key_entry (snd kv) (validate_input (fst kv) config = Inr True)"
  let ?pd = "foldl (\<lambda>d kv. dict_set d (?f kv) (?g kv)) [] kvs"
  from process_data_dict_all_text [OF assms] obtain r where r:
    "process_data (PDict kvs) config = Inr r"
    "getitem r ''total_keys'' = Some (PInt (int (length kvs)))"
    "getitem r ''valid_keys'' =
       Some (PInt (int (length (filter (\<lambda>kv. validate_input (fst kv) config = Inr True) kvs))))"
    "getitem r ''valid'' =
       Some (PBool (length (filter (\<lambda>kv. validate_input (fst kv) config = Inr True) kvs) = length kvs))"
    "getitem r ''processed_data'' = Some (PDict ?pd)" by blast
  have a: "\<forall>kv \<in> set kvs. \<exists>e. (?f kv, e) \<in> set ?pd"
  proof
    fix kv assume "kv \<in> set kvs"
    then have "?f kv \<in> ?f ` set kvs" by simp
    then have "?f kv \<in> fst ` set ?pd" using keys_foldl_dict_set [of ?f ?g kvs] by simp
    then show "\<exists>e. (?f kv, e) \<in> set ?pd" by force
  qed
  have b: "\<forall>(pk, e) \<in> set ?pd. \<exists>(k, v) \<in> set kvs.
         pk = processed_key (config_or_default config) k \<and>
         getitem e ''original_value'' = Some v \<and>
         getitem e ''key_valid'' = Some (PBool (validate_input k config = Inr True)) \<and>
         getitem e ''value_type'' = Some (PStr (py (type_name v)))"
  proof (clarify)
    fix pk e assume "(pk, e) \<in> set ?pd"
    from foldl_dict_set_mem [OF this] obtain kv
      where kv: "kv \<in> set kvs" "pk = ?f kv" "e = ?g kv" by blast
    obtain k v where "kv = (k, v)" by (cases kv)
    with kv have "(k, v) \<in> set kvs \<and> pk = processed_key (config_or_default config) k \<and>
         getitem e ''original_value'' = Some v \<and>
         getitem e ''key_valid'' = Some (PBool (validate_input k config = Inr True)) \<and>
         getitem e ''value_type'' = Some (PStr (py (type_name v)))"
      by (simp add: getitem_key_entry)
    then show "\<exists>(k, v) \<in> set kvs.
         pk = processed_key (config_or_default config) k \<and>
         getitem e ''original_value'' = Some v \<and>
         getitem e ''key_valid'' = Some (PBool (validate_input k config = Inr True)) \<and>
         getitem e ''value_type'' = Some (PStr (py (type_name v)))" by blast
  qed
  from r a b show ?thesis by blast
qed

theorem process_data_dict_witness:
  "list_all (\<lambda>kv. is_str (fst kv))
     [(PStr (py ''valid_key''), PStr (py ''value1'')), (PStr (py ''invalid@key''), PInt 2)] \<and>
   parse_class (allowed_chars (config_or_default None)) \<noteq> None \<and>
   (\<exists>r pd. process_data
        (PDict [(PStr (py ''valid_key''), PStr (py ''value1'')), (PStr (py ''invalid@key''), PInt 2)])
        None = Inr r \<and>
      getitem r ''total_keys'' = Some (PInt 2) \<and>
      getitem r ''valid_keys'' = Some (PInt 1) \<and>
      getitem r ''valid'' = Some (PBool False) \<and>
      getitem r ''processed_data'' = Some (PDict pd) \<and>
      (\<exists>e. (PStr (py ''invalid@key''), e) \<in> set pd \<and>
           getitem e ''original_value'' = Some (PInt 2) \<and>
           getitem e ''key_valid'' = Some (PBool False) \<and>
           getitem e ''value_type'' = Some (PStr (py ''int''))))"
proof -
  let ?k1 = "PStr (py ''valid_key'')" and ?k2 = "PStr (py ''invalid@key'')"
  let ?kvs = "[(?k1, PStr (py ''value1'')), (?k2, PInt 2)]"
  let ?ok = "\<lambda>kv. validate_input (fst kv) None = Inr True"
  have h: "list_all (\<lambda>kv. is_str (fst kv)) ?kvs"
    "parse_class (allowed_chars (config_or_default None)) \<noteq> None"
    by (simp_all add: validate_eval)
  have v: "validate_input ?k1 None = Inr True" "validate_input ?k2 None = Inr False"
    by (simp_all add: validate_eval)
  have p: "processed_key (config_or_default None) ?k1 = ?k1"
    "processed_key (config_or_default None) ?k2 = ?k2" "?k1 \<noteq> ?k2"
    by (simp_all add: processed_key_def validate_eval)
  from process_data_dict [OF h] obtain r pd where r:
    "process_data (PDict ?kvs) None = Inr r"
    "getitem r ''total_keys'' = Some (PInt (int (length ?kvs)))"
    "getitem r ''valid_keys'' = Some (PInt (int (length (filter ?ok ?kvs))))"
    "getitem r ''valid'' = Some (PBool (length (filter ?ok ?kvs) = length ?kvs))"
    "getitem r ''processed_data'' = Some (PDict pd)"
    and a: "\<forall>kv \<in> set ?kvs. \<exists>e. (processed_key (config_or_default None) (fst kv), e) \<in> set pd"
    and b: "\<forall>(pk, e) \<in> set pd. \<exists>(k, v) \<in> set ?kvs.
         pk = processed_key (config_or_default None) k \<and>
         getitem e ''original_value'' = Some v \<and>
         getitem e ''key_valid'' = Some (PBool (validate_input k None = Inr True)) \<and>
         getitem e ''value_type'' = Some (PStr (py (type_name v)))"
    by blast
  from r(2,3,4) v have c: "getitem r ''total_keys'' = Some (PInt 2)"
    "getitem r ''valid_keys'' = Some (PInt 1)" "getitem r ''valid'' = Some (PBool False)"
    by simp_all
  from a p obtain e where e: "(?k2, e) \<in> set pd" by auto
  with b have "\<exists>(k, v) \<in> set ?kvs.
         ?k2 = processed_key (config_or_default None) k \<and>
         getitem e ''original_value'' = Some v \<and>
         getitem e ''key_valid'' = Some (PBool (validate_input k None = Inr True)) \<and>
         getitem e ''value_type'' = Some (PStr (py (type_name v)))" by blast
  with p v have "getitem e ''original_value'' = Some (PInt 2) \<and>
           getitem e ''key_valid'' = Some (PBool False) \<and>
           getitem e ''value_type'' = Some (PStr (py ''int''))"
    by auto
  with h r(1,5) c e show ?thesis by blast
qed

text \<open>
  C4. \<open>process_data\<close> fails with the \<open>TemplateError\<close> "Unsupported data type" for a value
  that is neither text nor a list nor a dict (\<open>process_data(123)\<close>), with "List items must be
  strings" (naming the type of the first such item) for a list with an item that is not text
  (\<open>process_data([1, 2])\<close>), and with "Dictionary keys must be strings" for a dict with a key
  that is not text (\<open>process_data({123: "v"})\<close>).
\<close>

theorem process_data_errors:
  "(\<not> is_str data \<and> \<not> is_list data \<and> \<not> is_dict data \<longrightarrow>
      process_data data config = Inl (TemplateError (''Unsupported data type: '' @ type_repr data))) \<and>
   (parse_class (allowed_chars (config_or_default config)) \<noteq> None \<and> \<not> list_all is_str xs \<longrightarrow>
      (\<exists>x. find (\<lambda>x. \<not> is_str x) xs = Some x \<and>
         process_data (PList xs) config =
           Inl (TemplateError (''List items must be strings, got '' @ type_repr x)))) \<and>
   (parse_class (allowed_chars (config_or_default config)) \<noteq> None \<and>
    \<not> list_all (\<lambda>kv. is_str (fst kv)) kvs \<longrightarrow>
      process_data (PDict kvs) config = Inl (TemplateError ''Dictionary keys must be strings'')) \<and>
   process_data (PInt 123) None =
      Inl (TemplateError (''Unsupported data type: '' @ type_repr (PInt 123))) \<and>
   process_data (PList [PInt 1, PInt 2]) None =
      Inl (TemplateError (''List items must be strings, got '' @ type_repr (PInt 1))) \<and>
   process_data (PDict [(PInt 123, PStr (py ''v''))]) None =
      Inl (TemplateError ''Dictionary keys must be strings'')"
proof (intro conjI impI)
  assume "\<not> is_str data \<and> \<not> is_list data \<and> \<not> is_dict data"
  then show "process_data data config =
      Inl (TemplateError (''Unsupported data type: '' @ type_repr data))"
    by (cases data) (simp_all add: process_data_def Let_def)
next
  assume a: "parse_class (allowed_chars (config_or_default config)) \<noteq> None \<and> \<not> list_all is_str xs"
  then obtain cs where cs: "parse_class (allowed_chars (config_or_default config)) = Some cs"
    by blast
  from a have "\<exists>x \<in> set xs. \<not> is_str x" by (simp add: list_all_iff)
  then obtain x where x: "find (\<lambda>x. \<not> is_str x) xs = Some x"
    by (cases "find (\<lambda>x. \<not> is_str x) xs") (auto simp: find_None_iff)
  from process_items_non_text [OF cs x, of "[]" 0]
  have "process_data (PList xs) config =
           Inl (TemplateError (''List items must be strings, got '' @ type_repr x))"
    by (simp add: process_data_def Let_def)
  with x show "\<exists>x. find (\<lambda>x. \<not> is_str x) xs = Some x \<and>
         process_data (PList xs) config =
           Inl (TemplateError (''List items must be strings, got '' @ type_repr x))" by blast
next
  assume a: "parse_class (allowed_chars (config_or_default config)) \<noteq> None \<and>
    \<not> list_all (\<lambda>kv. is_str (fst kv)) kvs"
  then obtain cs where cs: "parse_class (allowed_chars (config_or_default config)) = Some cs"
    by blast
  from a have "\<not> list_all (\<lambda>kv. is_str (fst kv)) kvs" by simp
  from process_entries_non_text [OF cs this, of "[]" 0]
  show "process_data (PDict kvs) config = Inl (TemplateError ''Dictionary keys must be strings'')"
    by (simp add: process_data_def Let_def)
next
  show "process_data (PInt 123) None =
      Inl (TemplateError (''Unsupported data type: '' @ type_repr (PInt 123)))"
    by (simp add: process_data_def Let_def)
next
  show "process_data (PList [PInt 1, PInt 2]) None =
      Inl (TemplateError (''List items must be strings, got '' @ type_repr (PInt 1)))"
    by (simp add: process_data_def Let_def)
next
  show "process_data (PDict [(PInt 123, PStr (py ''v''))]) None =
      Inl (TemplateError ''Dictionary keys must be strings'')"
    by (simp add: process_data_def Let_def)
qed

theorem process_data_errors_witness:
  "\<not> is_str (PTuple [PStr (py ''a'')]) \<and> \<not> is_list (PTuple [PStr (py ''a'')]) \<and>
   \<not> is_dict (PTuple [PStr (py ''a'')]) \<and>
   process_data (PTuple [PStr (py ''a'')]) None = Inl (TemplateError ''Unsupported data type: <class 'tuple'>'') \<and>
   parse_class (allowed_chars (config_or_default None)) \<noteq> None \<and>
   \<not> list_all is_str [PStr (py ''valid''), PInt 123, PStr (py ''also_valid'')] \<and>
   process_data (PList [PStr (py ''valid''), PInt 123, PStr (py ''also_valid'')]) None =
     Inl (TemplateError ''List items must be strings, got <class 'int'>'') \<and>
   \<not> list_all (\<lambda>kv. is_str (fst kv))
       [(PStr (py ''valid_key''), PStr (py ''value'')), (PInt 123, PStr (py ''value''))] \<and>
   process_data (PDict [(PStr (py ''valid_key''), PStr (py ''value'')), (PInt 123, PStr (py ''value''))])
     None = Inl (TemplateError ''Dictionary keys must be strings'')"
proof -
  let ?xs = "[PStr (py ''valid''), PInt 123, PStr (py ''also_valid'')]"
  let ?kvs = "[(PStr (py ''valid_key''), PStr (py ''value'')), (PInt 123, PStr (py ''value''))]"
  have p: "parse_class (allowed_chars (config_or_default None)) \<noteq> None"
    by (simp add: validate_eval)
  have t: "type_repr (PTuple [PStr (py ''a'')]) = ''<class 'tuple'>''"
    "type_repr (PInt 123) = ''<class 'int'>''"
    by (simp_all add: type_repr_def)
  from process_data_errors [of "PTuple [PStr (py ''a'')]" None ?xs ?kvs] p t
  show ?thesis by simp
qed

text \<open>
  C5. Constructing a \<open>TemplateConfig\<close> fails, with the \<open>TemplateError\<close> of
  \<open>__post_init__\<close>, if and only if \<open>max_length < min_length\<close>; every configuration that is
  constructed has \<open>min_length \<le> max_length\<close>; \<open>TemplateConfig(max_length=5, min_length=10)\<close>
  fails.
\<close>

theorem TemplateConfig_new_spec:
  "(TemplateConfig_new mx mn ac sw =
      Inl (TemplateError ''max_length must be greater than or equal to min_length'')
      \<longleftrightarrow> (case mx of None \<Rightarrow> 100 | Some n \<Rightarrow> n) < (case mn of None \<Rightarrow> 1 | Some n \<Rightarrow> n)) \<and>
   ((\<exists>c. TemplateConfig_new mx mn ac sw = Inr c)
      \<longleftrightarrow> (case mn of None \<Rightarrow> 1 | Some n \<Rightarrow> n) \<le> (case mx of None \<Rightarrow> 100 | Some n \<Rightarrow> n)) \<and>
   (\<forall>c. TemplateConfig_new mx mn ac sw = Inr c \<longrightarrow>
      max_length c = (case mx of None \<Rightarrow> 100 | Some n \<Rightarrow> n) \<and>
      min_length c = (case mn of None \<Rightarrow> 1 | Some n \<Rightarrow> n) \<and>
      min_length c \<le> max_length c) \<and>
   TemplateConfig_new (Some 5) (Some 10) None None =
      Inl (TemplateError ''max_length must be greater than or equal to min_length'')"
  by (auto simp: TemplateConfig_new_def post_init_def split: option.splits if_splits)

theorem TemplateConfig_new_spec_witness:
  "TemplateConfig_new (Some 20) (Some 3) None None =
     Inr \<lparr>max_length = 20, min_length = 3, allowed_chars = py ''[a-zA-Z0-9_-]'',
          strip_whitespace = True\<rparr> \<and>
   min_length \<lparr>max_length = 20, min_length = 3, allowed_chars = py ''[a-zA-Z0-9_-]'',
          strip_whitespace = True\<rparr> \<le>
   max_length \<lparr>max_length = 20, min_length = 3, allowed_chars = py ''[a-zA-Z0-9_-]'',
          strip_whitespace = True\<rparr> \<and>
   TemplateConfig_new (Some 0) None None None =
      Inl (TemplateError ''max_length must be greater than or equal to min_length'')"
proof -
  have c: "TemplateConfig_new (Some 20) (Some 3) None None =
     Inr \<lparr>max_length = 20, min_length = 3, allowed_chars = py ''[a-zA-Z0-9_-]'',
          strip_whitespace = True\<rparr>"
    by (simp add: TemplateConfig_new_def post_init_def)
  from TemplateConfig_new_spec [of "Some 20" "Some 3" None None] c
  have "min_length \<lparr>max_length = 20, min_length = 3, allowed_chars = py ''[a-zA-Z0-9_-]'',
          strip_whitespace = True\<rparr> \<le>
   max_length \<lparr>max_length = 20, min_length = 3, allowed_chars = py ''[a-zA-Z0-9_-]'',
          strip_whitespace = True\<rparr>" by blast
  moreover from TemplateConfig_new_spec [of "Some 0" None None None]
  have "TemplateConfig_new (Some 0) None None None =
      Inl (TemplateError ''max_length must be greater than or equal to min_length'')" by simp
  ultimately show ?thesis using c by blast
qed

text \<open>
  C6. Without argument \<open>hello_entirius\<close> returns \<open>"Hello, World! Welcome to Entirius."\<close>;
  for a text \<open>n\<close> it returns \<open>"Hello, " + n + "! Welcome to Entirius."\<close>; for an argument
  that is given (not \<open>None\<close>, which is how an absent argument reaches the function) and is
  not text it fails with the \<open>TemplateError\<close> "Name must be a string".
\<close>

theorem hello_entirius_spec:
  "hello_entirius PNone = Inr (py ''Hello, World! Welcome to Entirius.'') \<and>
   hello_entirius (PStr n) = Inr (py ''Hello, '' @ n @ py ''! Welcome to Entirius.'') \<and>
   (v \<noteq> PNone \<and> \<not> is_str v \<longrightarrow>
      hello_entirius v = Inl (TemplateError ''Name must be a string'')) \<and>
   hello_entirius (PStr (py ''Dev'')) = Inr (py ''Hello, Dev! Welcome to Entirius.'') \<and>
   hello_entirius (PInt 123) = Inl (TemplateError ''Name must be a string'')"
  by (cases v) (simp_all add: hello_entirius_def py_def)

theorem hello_entirius_spec_witness:
  "PBool True \<noteq> PNone \<and> \<not> is_str (PBool True) \<and>
   hello_entirius (PBool True) = Inl (TemplateError ''Name must be a string'')"
  using hello_entirius_spec [of "[]" "PBool True"] by simp

text \<open>
  C7. The default configuration has \<open>max_length=100\<close>, \<open>min_length=1\<close>,
  \<open>allowed_chars\<close> the alphanumerics with \<open>_\<close> and \<open>-\<close>, and \<open>strip_whitespace=True\<close>; under
  it \<open>validate_input("test_value")\<close> is true, and \<open>validate_input("")\<close>,
  \<open>validate_input("a" * 101)\<close> and \<open>validate_input("test value")\<close> are false.
\<close>

theorem validate_input_examples:
  "default_config = \<lparr>max_length = 100, min_length = 1, allowed_chars = py ''[a-zA-Z0-9_-]'',
      strip_whitespace = True\<rparr> \<and>
   TemplateConfig_new None None None None = Inr default_config \<and>
   parse_class (allowed_chars default_config) =
     Some (Charset False [Range 97 122, Range 65 90, Range 48 57, Literal 95, Literal 45]) \<and>
   validate_input (PStr (py ''test_value'')) None = Inr True \<and>
   validate_input (PStr (py '''')) None = Inr False \<and>
   validate_input (PStr (replicate 101 (of_char CHR ''a''))) None = Inr False \<and>
   validate_input (PStr (py ''test value'')) None = Inr False"
  by (simp add: validate_eval)

text \<open>
  C8. \<open>validate_input("  test  ")\<close> is true under \<open>TemplateConfig(strip_whitespace=True)\<close>
  and false under \<open>TemplateConfig(strip_whitespace=False)\<close>.
\<close>

theorem validate_input_whitespace_examples:
  "TemplateConfig_new None None None (Some True) = Inr (default_config\<lparr>strip_whitespace := True\<rparr>) \<and>
   validate_input (PStr (py ''  test  '')) (Some (default_config\<lparr>strip_whitespace := True\<rparr>)) = Inr True \<and>
   TemplateConfig_new None None None (Some False) = Inr (default_config\<lparr>strip_whitespace := False\<rparr>) \<and>
   validate_input (PStr (py ''  test  '')) (Some (default_config\<lparr>strip_whitespace := False\<rparr>)) = Inr False"
  by (simp add: validate_eval)

text \<open>
  C9. Under \<open>strip_whitespace=True\<close> and for a dict whose keys are all text, \<open>processed_data\<close>
  is keyed by the stripped keys, once each; under a stripped key stands the entry of the last
  input key that strips to it; and when two different input keys strip to the same text,
  \<open>processed_data\<close> has fewer entries than \<open>total_keys\<close>, which is still the number of input
  entries.
\<close>

theorem process_data_dict_stripped_keys:
  assumes "list_all (\<lambda>kv. is_str (fst kv)) kvs"
    and "parse_class (allowed_chars (config_or_default config)) \<noteq> None"
    and "strip_whitespace (config_or_default config)"
  shows "\<exists>r pd. process_data (PDict kvs) config = Inr r \<and>
     getitem r ''total_keys'' = Some (PInt (int (length kvs))) \<and>
     getitem r ''processed_data'' = Some (PDict pd) \<and>
     distinct (map fst pd) \<and>
     fst ` set pd = (\<lambda>kv. PStr (strip (str_of (fst kv)))) ` set kvs \<and>
     (\<forall>i < length kvs.
        (\<forall>j. i < j \<and> j < length kvs \<longrightarrow>
             strip (str_of (fst (kvs ! j))) \<noteq> strip (str_of (fst (kvs ! i)))) \<longrightarrow>
        (PStr (strip (str_of (fst (kvs ! i)))),
         key_entry (snd (kvs ! i)) (validate_input (fst (kvs ! i)) config = Inr True)) \<in> set pd) \<and>
     ((\<exists>i j. i < length kvs \<and> j < length kvs \<and> fst (kvs ! i) \<noteq> fst (kvs ! j) \<and>
             strip (str_of (fst (kvs ! i))) = strip (str_of (fst (kvs ! j)))) \<longrightarrow>
        length pd < length kvs)"
proof -
  let ?h = "\<lambda>k. PStr (strip (str_of k))"
  let ?f = "\<lambda>kv. ?h (fst kv)"
  let ?g = "\<lambda>kv. key_entry (snd kv) (validate_input (fst kv) config = Inr True)"
  let ?pd = "foldl (\<lambda>d kv. dict_set d (?f kv) (?g kv)) [] kvs"
  have pk: "processed_key (config_or_default config) k = ?h k" for k
    using assms(3) by (simp add: processed_key_def)
  from process_data_dict_all_text [OF assms(1,2)] obtain r where r:
    "process_data (PDict kvs) config = Inr r"
    "getitem r ''total_keys'' = Some (PInt (int (length kvs)))"
    "getitem r ''processed_data'' = Some (PDict ?pd)" by (auto simp: pk)
  have d: "distinct (map fst ?pd)" by (rule distinct_foldl_dict_set) simp
  have k: "fst ` set ?pd = ?f ` set kvs" by (rule keys_foldl_dict_set)
  have l: "\<forall>i < length kvs.
        (\<forall>j. i < j \<and> j < length kvs \<longrightarrow>
             strip (str_of (fst (kvs ! j))) \<noteq> strip (str_of (fst (kvs ! i)))) \<longrightarrow>
        (?f (kvs ! i), ?g (kvs ! i)) \<in> set ?pd"
  proof (intro allI impI)
    fix i assume i: "i < length kvs"
      and "\<forall>j. i < j \<and> j < length kvs \<longrightarrow>
             strip (str_of (fst (kvs ! j))) \<noteq> strip (str_of (fst (kvs ! i)))"
    then have "\<forall>j. i < j \<and> j < length kvs \<longrightarrow> ?f (kvs ! j) \<noteq> ?f (kvs ! i)" by simp
    with i show "(?f (kvs ! i), ?g (kvs ! i)) \<in> set ?pd" by (rule foldl_dict_set_last)
  qed
  have s: "(\<exists>i j. i < length kvs \<and> j < length kvs \<and> fst (kvs ! i) \<noteq> fst (kvs ! j) \<and>
             strip (str_of (fst (kvs ! i))) = strip (str_of (fst (kvs ! j)))) \<longrightarrow>
        length ?pd < length kvs"
  proof
    assume "\<exists>i j. i < length kvs \<and> j < length kvs \<and> fst (kvs ! i) \<noteq> fst (kvs ! j) \<and>
             strip (str_of (fst (kvs ! i))) = strip (str_of (fst (kvs ! j)))"
    then obtain i j where "i < length kvs" "j < length kvs" "fst (kvs ! i) \<noteq> fst (kvs ! j)"
      "?h (fst (kvs ! i)) = ?h (fst (kvs ! j))" by auto
    then show "length ?pd < length kvs" by (rule foldl_dict_set_shorter)
  qed
  from r d k l s show ?thesis by blast
qed

theorem process_data_dict_stripped_keys_witness:
  "list_all (\<lambda>kv. is_str (fst kv)) [(PStr (py ''a''), PInt 1), (PStr (py '' a''), PInt 2)] \<and>
   parse_class (allowed_chars (config_or_default None)) \<noteq> None \<and>
   strip_whitespace (config_or_default None) \<and>
   (\<exists>r pd. process_data (PDict [(PStr (py ''a''), PInt 1), (PStr (py '' a''), PInt 2)]) None = Inr r \<and>
      getitem r ''total_keys'' = Some (PInt 2) \<and>
      getitem r ''processed_data'' = Some (PDict pd) \<and>
      fst ` set pd = {PStr (py ''a'')} \<and>
      (PStr (py ''a''), key_entry (PInt 2) True) \<in> set pd \<and>
      length pd < 2)"
proof -
  let ?kvs = "[(PStr (py ''a''), PInt 1), (PStr (py '' a''), PInt 2)]"
  have h: "list_all (\<lambda>kv. is_str (fst kv)) ?kvs"
    "parse_class (allowed_chars (config_or_default None)) \<noteq> None"
    "strip_whitespace (config_or_default None)"
    by (simp_all add: validate_eval)
  have v: "validate_input (PStr (py '' a'')) None = Inr True"
    "strip (py ''a'') = py ''a''" "strip (py '' a'') = py ''a''"
    "PStr (py ''a'') \<noteq> PStr (py '' a'')"
    by (simp_all add: validate_eval)
  from process_data_dict_stripped_keys [OF h] obtain r pd where r:
    "process_data (PDict ?kvs) None = Inr r"
    "getitem r ''total_keys'' = Some (PInt (int (length ?kvs)))"
    "getitem r ''processed_data'' = Some (PDict pd)"
    "fst ` set pd = (\<lambda>kv. PStr (strip (str_of (fst kv)))) ` set ?kvs"
    and l: "\<forall>i < length ?kvs.
        (\<forall>j. i < j \<and> j < length ?kvs \<longrightarrow>
             strip (str_of (fst (?kvs ! j))) \<noteq> strip (str_of (fst (?kvs ! i)))) \<longrightarrow>
        (PStr (strip (str_of (fst (?kvs ! i)))),
         key_entry (snd (?kvs ! i)) (validate_input (fst (?kvs ! i)) None = Inr True)) \<in> set pd"
    and s: "(\<exists>i j. i < length ?kvs \<and> j < length ?kvs \<and> fst (?kvs ! i) \<noteq> fst (?kvs ! j) \<and>
             strip (str_of (fst (?kvs ! i))) = strip (str_of (fst (?kvs ! j)))) \<longrightarrow>
        length pd < length ?kvs"
    by blast
  have "\<forall>j. 1 < j \<and> j < length ?kvs \<longrightarrow>
             strip (str_of (fst (?kvs ! j))) \<noteq> strip (str_of (fst (?kvs ! 1)))" by simp
  moreover have "(1::nat) < length ?kvs" by simp
  ultimately have "(PStr (strip (str_of (fst (?kvs ! 1)))),
         key_entry (snd (?kvs ! 1)) (validate_input (fst (?kvs ! 1)) None = Inr True)) \<in> set pd"
    using l by blast
  with v have m: "(PStr (py ''a''), key_entry (PInt 2) True) \<in> set pd" by simp
  have "0 < length ?kvs \<and> 1 < length ?kvs \<and> fst (?kvs ! 0) \<noteq> fst (?kvs ! 1) \<and>
             strip (str_of (fst (?kvs ! 0))) = strip (str_of (fst (?kvs ! 1)))"
    using v by simp
  then have "\<exists>i j. i < length ?kvs \<and> j < length ?kvs \<and> fst (?kvs ! i) \<noteq> fst (?kvs ! j) \<and>
             strip (str_of (fst (?kvs ! i))) = strip (str_of (fst (?kvs ! j)))" by blast
  with s have n: "length pd < 2" by simp
  from r(2) have t: "getitem r ''total_keys'' = Some (PInt 2)" by simp
  from r(4) v have k: "fst ` set pd = {PStr (py ''a'')}" by simp
  from h r(1,3) t k m n show ?thesis by blast
qed

text \<open>
  C10. In a result of \<open>process_data\<close> for a list, every entry of \<open>processed_data\<close> whose
  \<open>valid\<close> is true has a \<open>length\<close> between \<open>min_length\<close> and \<open>max_length\<close> of the
  configuration used.
\<close>

theorem valid_item_length_within_bounds:
  assumes "process_data (PList xs) config = Inr r"
    and "getitem r ''processed_data'' = Some (PList es)"
    and "e \<in> set es"
    and "getitem e ''valid'' = Some (PBool True)"
  shows "\<exists>n. getitem e ''length'' = Some (PInt n) \<and>
           min_length (config_or_default config) \<le> n \<and> n \<le> max_length (config_or_default config)"
proof -
  let ?cfg = "config_or_default config"
  from process_data_list_inv [OF assms(1)] obtain es' m
    where items: "process_items ?cfg xs [] 0 = Inr (es', m)" by blast
  from process_data_list_result [OF items] assms(1,2) have "es' = es" by auto
  with process_items_entries [OF items] assms(3) obtain s b
    where e: "e = item_entry (if strip_whitespace ?cfg then strip s else s) b"
      and b: "validate_input (PStr s) (Some ?cfg) = Inr b" by auto
  from e assms(4) have "b" by (simp add: getitem_item_entry)
  with b have "validate_input (PStr s) (Some ?cfg) = Inr True" by simp
  from validate_input_True_bounds [OF this] e show ?thesis
    by (simp add: getitem_item_entry)
qed

theorem valid_item_length_within_bounds_witness:
  "\<exists>r es e. process_data (PList [PStr (py '' ab''), PStr (py ''bad value'')]) None = Inr r \<and>
     getitem r ''processed_data'' = Some (PList es) \<and> e \<in> set es \<and>
     getitem e ''valid'' = Some (PBool True) \<and>
     getitem e ''length'' = Some (PInt 2) \<and>
     (\<exists>n. getitem e ''length'' = Some (PInt n) \<and>
        min_length (config_or_default None) \<le> n \<and> n \<le> max_length (config_or_default None))"
proof -
  let ?xs = "[PStr (py '' ab''), PStr (py ''bad value'')]"
  let ?e = "item_entry (py ''ab'') True"
  let ?es = "[?e, item_entry (py ''bad value'') False]"
  have v: "validate_input (PStr (py '' ab'')) (Some default_config) = Inr True"
    "validate_input (PStr (py ''bad value'')) (Some default_config) = Inr False"
    "strip_whitespace default_config" "strip (py '' ab'') = py ''ab''"
    "strip (py ''bad value'') = py ''bad value''"
    by (simp_all add: validate_eval)
  have "process_items (config_or_default None) ?xs [] 0 = Inr (?es, 1)"
    by (simp add: config_or_default_def v)
  from process_data_list_result [OF this] obtain r where r:
    "process_data (PList ?xs) None = Inr r" "getitem r ''processed_data'' = Some (PList ?es)"
    by blast
  have e: "?e \<in> set ?es" "getitem ?e ''valid'' = Some (PBool True)"
    "getitem ?e ''length'' = Some (PInt 2)"
    by (simp_all add: getitem_item_entry py_def)
  from valid_item_length_within_bounds [OF r e(1,2)] r e show ?thesis by blast
qed

section \<open>Further properties\<close>

text \<open>
  X1. When \<open>strip_whitespace\<close> is set, or the value does not end with a newline,
  \<open>validate_input\<close> is true exactly when the length of the (possibly stripped) value lies
  within \<open>[min_length, max_length]\<close>, the value is not empty and all its characters belong to
  the allowed set.
\<close>

theorem validate_input_iff:
  assumes "parse_class (allowed_chars (config_or_default config)) = Some cs"
    and "v = (if strip_whitespace (config_or_default config) then strip s else s)"
    and "strip_whitespace (config_or_default config) \<or> s = [] \<or> last s \<noteq> 10"
  shows "validate_input (PStr s) config =
     Inr (min_length (config_or_default config) \<le> int (length v) \<and>
          int (length v) \<le> max_length (config_or_default config) \<and>
          v \<noteq> [] \<and> list_all (in_charset cs) v)"
proof -
  have "\<not> (\<exists>t. t \<noteq> [] \<and> v = t @ [10] \<and> list_all (in_charset cs) t)"
  proof
    assume "\<exists>t. t \<noteq> [] \<and> v = t @ [10] \<and> list_all (in_charset cs) t"
    then obtain t where t: "v = t @ [10]" by blast
    show False
    proof (cases "strip_whitespace (config_or_default config)")
      case True
      with assms(2) t have "strip s = t @ [10]" by simp
      then show False by (simp add: strip_no_trailing_newline)
    next
      case False
      with assms(2,3) t show False by auto
    qed
  qed
  then have no: "(\<exists>t. t \<noteq> [] \<and> v = t @ [10] \<and> list_all (in_charset cs) t) = False"
    by simp
  have "validate_input (PStr s) config =
     Inr (min_length (config_or_default config) \<le> int (length v) \<and>
          int (length v) \<le> max_length (config_or_default config) \<and>
          v \<noteq> [] \<and> (list_all (in_charset cs) v \<or>
             (\<exists>t. t \<noteq> [] \<and> v = t @ [10] \<and> list_all (in_charset cs) t)))"
    by (simp add: validate_input_str [OF assms(1)] Let_def assms(2))
  then show ?thesis by (simp only: no simp_thms)
qed

theorem validate_input_iff_witness:
  "parse_class (allowed_chars (config_or_default None)) =
     Some (Charset False [Range 97 122, Range 65 90, Range 48 57, Literal 95, Literal 45]) \<and>
   strip_whitespace (config_or_default None) \<and>
   strip (py '' a b '') = py ''a b'' \<and>
   validate_input (PStr (py '' a b '')) None = Inr False \<and>
   \<not> list_all (in_charset (Charset False [Range 97 122, Range 65 90, Range 48 57, Literal 95, Literal 45]))
       (py ''a b'')"
proof -
  let ?cs = "Charset False [Range 97 122, Range 65 90, Range 48 57, Literal 95, Literal 45]"
  have p: "parse_class (allowed_chars (config_or_default None)) = Some ?cs"
    and w: "strip_whitespace (config_or_default None)"
    and s: "strip (py '' a b '') = py ''a b''"
    and n: "\<not> list_all (in_charset ?cs) (py ''a b'')"
    by (simp_all add: validate_eval)
  have "py ''a b'' = (if strip_whitespace (config_or_default None) then strip (py '' a b '')
      else py '' a b '')" using w s by simp
  from validate_input_iff [OF p this] w n
  have "validate_input (PStr (py '' a b '')) None = Inr False" by simp
  with p w s n show ?thesis by blast
qed

end
